theory Spec2Isabelle
  imports Complex_Main
begin

section \<open>Data frames\<close>

text \<open>
  The notebook \<^verbatim>\<open>py_double_ml_multiway_cluster.ipynb\<close> holds one function with
  logic of its own, \<^verbatim>\<open>construct_iv\<close>, which builds the instrument columns of the
  automobile data. It works on a pandas data frame: a row index and named columns of equal
  length. The model keeps the columns in their order as an association list. A cell is
  \<open>'a option\<close>: a number of a type \<open>'a\<close> with exact addition, or \<open>None\<close> for the
  missing value \<^verbatim>\<open>NaN\<close>; a frame that \<^verbatim>\<open>pd.DataFrame(columns=..., index=...)\<close> has
  just created holds the missing value in every cell. Rounding of floating-point sums is
  outside the model.
\<close>

datatype error = KeyError string | IndexError

record ('l, 'v) data_frame =
  index :: "'l list"
  columns :: "(string \<times> 'v list) list"

text \<open>A frame is well formed when every column has one entry per row and no column name
  occurs twice.\<close>

definition wf_frame :: "('l, 'v) data_frame \<Rightarrow> bool" where
  "wf_frame df \<longleftrightarrow>
     list_all (\<lambda>c. length (snd c) = length (index df)) (columns df) \<and>
     distinct (map fst (columns df))"

text \<open>\<^verbatim>\<open>df[name]\<close>: the column of that name, or \<^verbatim>\<open>KeyError\<close>.\<close>

definition getitem :: "('l, 'v) data_frame \<Rightarrow> string \<Rightarrow> error + 'v list" where
  "getitem df name =
     (case map_of (columns df) name of
        None \<Rightarrow> Inl (KeyError name)
      | Some c \<Rightarrow> Inr c)"

text \<open>\<^verbatim>\<open>df[names]\<close>: the columns of those names in the order asked for; the first
  missing name raises.\<close>

fun getitems :: "('l, 'v) data_frame \<Rightarrow> string list \<Rightarrow> error + 'v list list" where
  "getitems df [] = Inr []"
| "getitems df (v # vs) =
     (case getitem df v of
        Inl e \<Rightarrow> Inl e
      | Inr c \<Rightarrow>
          (case getitems df vs of
             Inl e \<Rightarrow> Inl e
           | Inr cs \<Rightarrow> Inr (c # cs)))"

text \<open>\<^verbatim>\<open>pd.DataFrame(columns=names, index=idx)\<close>: every cell missing.\<close>

definition DataFrame :: "string list \<Rightarrow> 'l list \<Rightarrow> ('l, 'a option) data_frame" where
  "DataFrame names idx =
     \<lparr>index = idx, columns = map (\<lambda>c. (c, replicate (length idx) None)) names\<rparr>"

text \<open>\<^verbatim>\<open>df.iloc[i, j] = v\<close>: positional assignment; a position outside the frame
  raises \<^verbatim>\<open>IndexError\<close>.\<close>

definition iloc_set ::
  "('l, 'v) data_frame \<Rightarrow> nat \<Rightarrow> nat \<Rightarrow> 'v \<Rightarrow> error + ('l, 'v) data_frame" where
  "iloc_set df i j v =
     (if i < length (index df) \<and> j < length (columns df)
      then Inr (df\<lparr>columns :=
                  (columns df)[j := (fst (columns df ! j), (snd (columns df ! j))[i := v])]\<rparr>)
      else Inl IndexError)"

text \<open>The cell in row \<open>i\<close> of the \<open>j\<close>-th column.\<close>

definition cell :: "('l, 'v) data_frame \<Rightarrow> nat \<Rightarrow> nat \<Rightarrow> 'v" where
  "cell df i j = snd (columns df ! j) ! i"

text \<open>\<^verbatim>\<open>pd.concat((a, b), axis=1)\<close> of two frames over the same index.\<close>

definition concat_axis1 ::
  "('l, 'v) data_frame \<Rightarrow> ('l, 'v) data_frame \<Rightarrow> ('l, 'v) data_frame" where
  "concat_axis1 a b = \<lparr>index = index a, columns = columns a @ columns b\<rparr>"

section \<open>Boolean masks\<close>

text \<open>numpy's \<^verbatim>\<open>==\<close> on two cells: a missing value equals nothing, not even itself;
  \<^verbatim>\<open>!=\<close> is its negation, so a missing value differs from everything, itself included.\<close>

definition np_eq :: "'a option \<Rightarrow> 'a option \<Rightarrow> bool" where
  "np_eq x y = (case x of None \<Rightarrow> False | Some a \<Rightarrow> (case y of None \<Rightarrow> False | Some b \<Rightarrow> a = b))"

definition np_ne :: "'a option \<Rightarrow> 'a option \<Rightarrow> bool" where
  "np_ne x y = (\<not> np_eq x y)"

text \<open>numpy compares an array with a scalar element by element, and \<^verbatim>\<open>&\<close> joins two
  masks element by element.\<close>

definition eq_mask :: "'a option list \<Rightarrow> 'a option \<Rightarrow> bool list" where
  "eq_mask arr v = map (\<lambda>x. np_eq x v) arr"

definition ne_mask :: "'a option list \<Rightarrow> 'a option \<Rightarrow> bool list" where
  "ne_mask arr v = map (\<lambda>x. np_ne x v) arr"

definition and_mask :: "bool list \<Rightarrow> bool list \<Rightarrow> bool list" where
  "and_mask a b = map2 (\<and>) a b"

text \<open>\<^verbatim>\<open>col[mask].sum()\<close>: the entries the mask selects, the missing ones dropped
  (\<^verbatim>\<open>skipna\<close> is on by default), added up; nothing left gives 0.\<close>

definition dropna :: "'a option list \<Rightarrow> 'a list" where
  "dropna xs = List.map_filter (\<lambda>x. x) xs"

definition masked_sum :: "('a::comm_monoid_add) option list \<Rightarrow> bool list \<Rightarrow> 'a" where
  "masked_sum col m = sum_list (dropna (map fst (filter snd (zip col m))))"

text \<open>A cell as a summand: a missing value adds nothing.\<close>

definition nan_as_zero :: "('a::zero) option \<Rightarrow> 'a" where
  "nan_as_zero x = (case x of None \<Rightarrow> 0 | Some a \<Rightarrow> a)"

section \<open>construct_iv\<close>

text \<open>
  \<^verbatim>\<open>
  def construct_iv(blp_data, x_cols=['hpwt', 'air', 'mpd', 'space']):
      n = blp_data.shape[0]
      p = len(x_cols)
      firmid = blp_data['firm.id'].values
      cdid = blp_data['cdid'].values
      id_var = blp_data['id'].values
      X = blp_data[x_cols]
      sum_other = pd.DataFrame(columns=['sum.other.' + var for var in x_cols],
                               index=blp_data.index)
      sum_rival = pd.DataFrame(columns=['sum.rival.' + var for var in x_cols],
                               index=blp_data.index)
      for i in range(n):
          other_ind = (firmid == firmid[i]) & (cdid == cdid[i]) & (id_var != id_var[i])
          rival_ind = (firmid != firmid[i]) & (cdid == cdid[i])
          for j in range(p):
              sum_other.iloc[i, j] = X.iloc[:,j][other_ind].sum()
              sum_rival.iloc[i, j] = X.iloc[:,j][rival_ind].sum()
      return pd.concat((sum_other, sum_rival), axis=1)
  \<close>
\<close>

definition other_ind ::
  "'a option list \<Rightarrow> 'a option list \<Rightarrow> 'a option list \<Rightarrow> nat \<Rightarrow> bool list" where
  "other_ind firmid cdid id_var i =
     and_mask (and_mask (eq_mask firmid (firmid ! i)) (eq_mask cdid (cdid ! i)))
              (ne_mask id_var (id_var ! i))"

definition rival_ind :: "'a option list \<Rightarrow> 'a option list \<Rightarrow> nat \<Rightarrow> bool list" where
  "rival_ind firmid cdid i =
     and_mask (ne_mask firmid (firmid ! i)) (eq_mask cdid (cdid ! i))"

text \<open>The inner loop over the features \<open>j\<close>, for one row \<open>i\<close> and its two masks; the state
  is the pair of frames being filled.\<close>

fun inner_loop ::
  "('a::comm_monoid_add) option list list \<Rightarrow> bool list \<Rightarrow> bool list \<Rightarrow> nat \<Rightarrow> nat list \<Rightarrow>
   ('l, 'a option) data_frame \<times> ('l, 'a option) data_frame \<Rightarrow>
   error + (('l, 'a option) data_frame \<times> ('l, 'a option) data_frame)" where
  "inner_loop X oi ri i [] s = Inr s"
| "inner_loop X oi ri i (j # js) s =
     (case iloc_set (fst s) i j (Some (masked_sum (X ! j) oi)) of
        Inl e \<Rightarrow> Inl e
      | Inr sum_other \<Rightarrow>
          (case iloc_set (snd s) i j (Some (masked_sum (X ! j) ri)) of
             Inl e \<Rightarrow> Inl e
           | Inr sum_rival \<Rightarrow> inner_loop X oi ri i js (sum_other, sum_rival)))"

text \<open>The outer loop over the rows \<open>i\<close>.\<close>

fun outer_loop ::
  "'a option list \<Rightarrow> 'a option list \<Rightarrow> 'a option list \<Rightarrow>
   ('a::comm_monoid_add) option list list \<Rightarrow> nat \<Rightarrow> nat list \<Rightarrow>
   ('l, 'a option) data_frame \<times> ('l, 'a option) data_frame \<Rightarrow>
   error + (('l, 'a option) data_frame \<times> ('l, 'a option) data_frame)" where
  "outer_loop firmid cdid id_var X p [] s = Inr s"
| "outer_loop firmid cdid id_var X p (i # is) s =
     (case inner_loop X (other_ind firmid cdid id_var i) (rival_ind firmid cdid i) i [0..<p] s of
        Inl e \<Rightarrow> Inl e
      | Inr s' \<Rightarrow> outer_loop firmid cdid id_var X p is s')"

definition construct_iv ::
  "('l, ('a::comm_monoid_add) option) data_frame \<Rightarrow> string list \<Rightarrow>
   error + ('l, 'a option) data_frame" where
  "construct_iv blp_data x_cols =
     (let n = length (index blp_data);
          p = length x_cols
      in case getitem blp_data ''firm.id'' of
           Inl e \<Rightarrow> Inl e
         | Inr firmid \<Rightarrow>
        (case getitem blp_data ''cdid'' of
           Inl e \<Rightarrow> Inl e
         | Inr cdid \<Rightarrow>
        (case getitem blp_data ''id'' of
           Inl e \<Rightarrow> Inl e
         | Inr id_var \<Rightarrow>
        (case getitems blp_data x_cols of
           Inl e \<Rightarrow> Inl e
         | Inr X \<Rightarrow>
        (case outer_loop firmid cdid id_var X p [0..<n]
                (DataFrame (map (\<lambda>var. ''sum.other.'' @ var) x_cols) (index blp_data),
                 DataFrame (map (\<lambda>var. ''sum.rival.'' @ var) x_cols) (index blp_data)) of
           Inl e \<Rightarrow> Inl e
         | Inr s \<Rightarrow> Inr (concat_axis1 (fst s) (snd s)))))))"

section \<open>The cluster-robust variance component \<open>\<Gamma>\<close>-hat\<close>

text \<open>
  The variance estimator itself (the abstract base class \<^verbatim>\<open>DoubleML\<close> of the DoubleML
  package) is not among the sources: the notebooks only call it and state it as a formula
  in the section ``Cluster Robust Standard Errors'', which section 4.2 of the specification
  paraphrases:
  \<^verbatim>\<open>
  Gamma-hat = 1/K^2 * sum over (k,l) in [K]^2 of
                (|I_k| min |J_l|) / (|I_k| |J_l|)^2 *
                (   sum_{i in I_k} sum_{j in J_l} sum_{j' in J_l} psi(W_ij) psi(W_ij')
                  + sum_{i in I_k} sum_{i' in I_k} sum_{j in J_l} psi(W_ij) psi(W_i'j) )
  \<close>
  \<open>I k\<close> and \<open>J l\<close> are the folds of the two cluster dimensions, numbered from 1, and
  \<open>psi k l i j\<close> is the score of observation \<open>(i, j)\<close> at the estimate of the parameter,
  evaluated with the nuisance estimate of fold \<open>(k, l)\<close>. Numbers are exact reals.
\<close>

text \<open>Modelled from the spec: the code of the estimator is missing; this is the factor
  \<open>(|I_k| min |J_l|) / (|I_k| |J_l|)\<^sup>2\<close> of a fold in the formula.\<close>

definition fold_scale :: "nat set \<Rightarrow> nat set \<Rightarrow> real" where
  "fold_scale A B = real (min (card A) (card B)) / (real (card A) * real (card B))\<^sup>2"

text \<open>Modelled from the spec: the code of the estimator is missing; this is the notebook's
  formula for \<open>\<Gamma>\<close>-hat, term by term.\<close>

definition Gamma_hat ::
  "nat \<Rightarrow> (nat \<Rightarrow> nat set) \<Rightarrow> (nat \<Rightarrow> nat set) \<Rightarrow> (nat \<Rightarrow> nat \<Rightarrow> nat \<Rightarrow> nat \<Rightarrow> real) \<Rightarrow> real" where
  "Gamma_hat K I J psi =
     1 / (real K)\<^sup>2 *
     (\<Sum>k\<in>{1..K}. \<Sum>l\<in>{1..K}.
        fold_scale (I k) (J l) *
        ((\<Sum>i\<in>I k. \<Sum>j\<in>J l. \<Sum>j'\<in>J l. psi k l i j * psi k l i j') +
         (\<Sum>i\<in>I k. \<Sum>i'\<in>I k. \<Sum>j\<in>J l. psi k l i j * psi k l i' j)))"

text \<open>Modelled from the spec: the code of the estimator is missing; these two definitions
  follow the wording of section 4.2 of the specification instead of the formula. Per fold,
  the products of \<open>psi\<close> are summed over the ordered pairs of observations of the score
  subset \<open>I k \<times> J l\<close> that share the first or the second cluster index, every such pair
  once; the sum is scaled and averaged as in the formula.\<close>

definition shared_pairs :: "nat set \<Rightarrow> nat set \<Rightarrow> ((nat \<times> nat) \<times> (nat \<times> nat)) set" where
  "shared_pairs A B =
     Set.filter (\<lambda>(a, b). fst a = fst b \<or> snd a = snd b) ((A \<times> B) \<times> (A \<times> B))"

definition Gamma_hat_shared_pairs ::
  "nat \<Rightarrow> (nat \<Rightarrow> nat set) \<Rightarrow> (nat \<Rightarrow> nat set) \<Rightarrow> (nat \<Rightarrow> nat \<Rightarrow> nat \<Rightarrow> nat \<Rightarrow> real) \<Rightarrow> real" where
  "Gamma_hat_shared_pairs K I J psi =
     1 / (real K)\<^sup>2 *
     (\<Sum>k\<in>{1..K}. \<Sum>l\<in>{1..K}.
        fold_scale (I k) (J l) *
        (\<Sum>(a, b)\<in>shared_pairs (I k) (J l).
           psi k l (fst a) (snd a) * psi k l (fst b) (snd b)))"

section \<open>Example inputs\<close>

text \<open>A frame of four products: three in market 7 (two of firm 1, one of firm 2) and one in
  market 8.\<close>

definition blp_example :: "(nat, int option) data_frame" where
  "blp_example =
     \<lparr>index = [10, 11, 12, 13],
      columns = [(''firm.id'', [Some 1, Some 1, Some 2, Some 1]),
                 (''cdid'', [Some 7, Some 7, Some 7, Some 8]),
                 (''id'', [Some 100, Some 101, Some 102, Some 103]),
                 (''hpwt'', [Some 3, Some 5, Some 8, Some 13])]\<rparr>"

text \<open>A frame of three products in one market; the firm of the first is missing.\<close>

definition nan_example :: "(nat, int option) data_frame" where
  "nan_example =
     \<lparr>index = [0, 1, 2],
      columns = [(''firm.id'', [None, Some 1, Some 2]),
                 (''cdid'', [Some 7, Some 7, Some 7]),
                 (''id'', [Some 1, Some 2, Some 3]),
                 (''hpwt'', [Some 3, Some 5, Some 8])]\<rparr>"

text \<open>One fold per dimension holding the single cluster 1, and the constant score 1.\<close>

definition one_fold :: "nat \<Rightarrow> nat set" where
  "one_fold k = {1}"

definition unit_score :: "nat \<Rightarrow> nat \<Rightarrow> nat \<Rightarrow> nat \<Rightarrow> real" where
  "unit_score k l i j = 1"

section \<open>Shape of a frame during the loops\<close>

text \<open>\<open>frame_ok n p df\<close>: the frame has \<open>n\<close> rows and \<open>p\<close> columns of \<open>n\<close> cells;
  \<open>same_labels\<close>: two frames carry the same row index and the same column names.\<close>

definition frame_ok :: "nat \<Rightarrow> nat \<Rightarrow> ('l, 'v) data_frame \<Rightarrow> bool" where
  "frame_ok n p df \<longleftrightarrow>
     length (index df) = n \<and> length (columns df) = p \<and>
     (\<forall>j<p. length (snd (columns df ! j)) = n)"

definition same_labels :: "('l, 'v) data_frame \<Rightarrow> ('l, 'v) data_frame \<Rightarrow> bool" where
  "same_labels df df' \<longleftrightarrow>
     index df' = index df \<and> map fst (columns df') = map fst (columns df)"

section \<open>Masks and masked sums\<close>

lemma zip_as_map_nth:
  "length xs = length ys \<Longrightarrow> zip xs ys = map (\<lambda>k. (xs ! k, ys ! k)) [0..<length xs]"
  by (rule nth_equalityI) simp_all

lemma sum_list_dropna:
  "sum_list (dropna xs) = sum_list (map nan_as_zero xs)"
  by (induction xs) (simp_all add: dropna_def map_filter_simps nan_as_zero_def split: option.splits)

lemma masked_sum_filter_upt:
  assumes "length m = length col"
  shows "masked_sum col m =
         sum_list (map (\<lambda>k. nan_as_zero (col ! k)) (filter (\<lambda>k. m ! k) [0..<length col]))"
proof -
  have "zip col m = map (\<lambda>k. (col ! k, m ! k)) [0..<length col]"
    using assms by (simp add: zip_as_map_nth)
  then show ?thesis
    by (simp add: masked_sum_def sum_list_dropna filter_map comp_def)
qed

lemma masked_sum_set:
  assumes "length m = length col"
  shows "masked_sum col m = (\<Sum>k\<in>{k \<in> {..<length col}. m ! k}. nan_as_zero (col ! k))"
proof -
  have "distinct (filter (\<lambda>k. m ! k) [0..<length col])" by simp
  then have "sum_list (map (\<lambda>k. nan_as_zero (col ! k)) (filter (\<lambda>k. m ! k) [0..<length col]))
      = sum (\<lambda>k. nan_as_zero (col ! k)) (set (filter (\<lambda>k. m ! k) [0..<length col]))"
    by (rule sum_list_distinct_conv_sum_set)
  moreover have "set (filter (\<lambda>k. m ! k) [0..<length col]) = {k \<in> {..<length col}. m ! k}"
    by auto
  ultimately show ?thesis
    using assms by (simp add: masked_sum_filter_upt)
qed

lemma length_other_ind:
  "length firmid = n \<Longrightarrow> length cdid = n \<Longrightarrow> length id_var = n \<Longrightarrow>
   length (other_ind firmid cdid id_var i) = n"
  by (simp add: other_ind_def and_mask_def eq_mask_def ne_mask_def)

lemma length_rival_ind:
  "length firmid = n \<Longrightarrow> length cdid = n \<Longrightarrow> length (rival_ind firmid cdid i) = n"
  by (simp add: rival_ind_def and_mask_def eq_mask_def ne_mask_def)

lemma nth_other_ind:
  "length firmid = n \<Longrightarrow> length cdid = n \<Longrightarrow> length id_var = n \<Longrightarrow> k < n \<Longrightarrow>
   other_ind firmid cdid id_var i ! k \<longleftrightarrow>
     np_eq (firmid ! k) (firmid ! i) \<and> np_eq (cdid ! k) (cdid ! i) \<and>
     np_ne (id_var ! k) (id_var ! i)"
  by (simp add: other_ind_def and_mask_def eq_mask_def ne_mask_def)

lemma nth_rival_ind:
  "length firmid = n \<Longrightarrow> length cdid = n \<Longrightarrow> k < n \<Longrightarrow>
   rival_ind firmid cdid i ! k \<longleftrightarrow>
     np_ne (firmid ! k) (firmid ! i) \<and> np_eq (cdid ! k) (cdid ! i)"
  by (simp add: rival_ind_def and_mask_def eq_mask_def ne_mask_def)

section \<open>The loops fill every cell\<close>

lemma same_labels_refl: "same_labels df df"
  by (simp add: same_labels_def)

lemma same_labels_trans: "same_labels a b \<Longrightarrow> same_labels b c \<Longrightarrow> same_labels a c"
  by (simp add: same_labels_def)

lemma iloc_set_in_range:
  assumes "frame_ok n p df" and "i < n" and "j < p"
  shows "\<exists>df'. iloc_set df i j v = Inr df' \<and> frame_ok n p df' \<and> same_labels df df' \<and>
           (\<forall>i'<n. \<forall>j'<p. cell df' i' j' = (if i' = i \<and> j' = j then v else cell df i' j'))"
proof -
  let ?cs = "(columns df)[j := (fst (columns df ! j), (snd (columns df ! j))[i := v])]"
  let ?df' = "df\<lparr>columns := ?cs\<rparr>"
  from assms have run: "iloc_set df i j v = Inr ?df'"
    by (simp add: iloc_set_def frame_ok_def)
  from assms have ok: "frame_ok n p ?df'"
    by (simp add: frame_ok_def nth_list_update)
  from assms have "map fst ?cs = map fst (columns df)"
    by (simp add: frame_ok_def map_update list_update_same_conv)
  then have lab: "same_labels df ?df'"
    by (simp add: same_labels_def)
  from assms have cells:
    "\<forall>i'<n. \<forall>j'<p. cell ?df' i' j' = (if i' = i \<and> j' = j then v else cell df i' j')"
    by (simp add: cell_def frame_ok_def nth_list_update)
  from run ok lab cells show ?thesis by blast
qed

lemma inner_loop_fills:
  assumes "frame_ok n p (fst s)" and "frame_ok n p (snd s)" and "i < n"
    and "\<forall>j\<in>set js. j < p"
  shows "\<exists>s'. inner_loop X oi ri i js s = Inr s' \<and>
           frame_ok n p (fst s') \<and> frame_ok n p (snd s') \<and>
           same_labels (fst s) (fst s') \<and> same_labels (snd s) (snd s') \<and>
           (\<forall>i'<n. \<forall>j'<p.
              cell (fst s') i' j' =
                (if i' = i \<and> j' \<in> set js then Some (masked_sum (X ! j') oi)
                 else cell (fst s) i' j') \<and>
              cell (snd s') i' j' =
                (if i' = i \<and> j' \<in> set js then Some (masked_sum (X ! j') ri)
                 else cell (snd s) i' j'))"
  using assms
proof (induction js arbitrary: s)
  case Nil
  then show ?case by (simp add: same_labels_refl)
next
  case (Cons j js)
  from Cons.prems have j: "j < p" by simp
  from iloc_set_in_range [OF Cons.prems(1) Cons.prems(3) j, of "Some (masked_sum (X ! j) oi)"]
  obtain so where so: "iloc_set (fst s) i j (Some (masked_sum (X ! j) oi)) = Inr so"
    "frame_ok n p so" "same_labels (fst s) so"
    "\<forall>i'<n. \<forall>j'<p. cell so i' j' =
        (if i' = i \<and> j' = j then Some (masked_sum (X ! j) oi) else cell (fst s) i' j')"
    by blast
  from iloc_set_in_range [OF Cons.prems(2) Cons.prems(3) j, of "Some (masked_sum (X ! j) ri)"]
  obtain sr where sr: "iloc_set (snd s) i j (Some (masked_sum (X ! j) ri)) = Inr sr"
    "frame_ok n p sr" "same_labels (snd s) sr"
    "\<forall>i'<n. \<forall>j'<p. cell sr i' j' =
        (if i' = i \<and> j' = j then Some (masked_sum (X ! j) ri) else cell (snd s) i' j')"
    by blast
  from Cons.prems have js: "\<forall>j\<in>set js. j < p" by simp
  from Cons.IH [of "(so, sr)"] so(2) sr(2) Cons.prems(3) js
  obtain s' where s': "inner_loop X oi ri i js (so, sr) = Inr s'"
    "frame_ok n p (fst s')" "frame_ok n p (snd s')"
    "same_labels so (fst s')" "same_labels sr (snd s')"
    "\<forall>i'<n. \<forall>j'<p.
        cell (fst s') i' j' =
          (if i' = i \<and> j' \<in> set js then Some (masked_sum (X ! j') oi) else cell so i' j') \<and>
        cell (snd s') i' j' =
          (if i' = i \<and> j' \<in> set js then Some (masked_sum (X ! j') ri) else cell sr i' j')"
    by auto
  have run: "inner_loop X oi ri i (j # js) s = Inr s'"
    using so(1) sr(1) s'(1) by simp
  have lab: "same_labels (fst s) (fst s')" "same_labels (snd s) (snd s')"
    using so(3) sr(3) s'(4,5) by (blast intro: same_labels_trans)+
  have cells: "\<forall>i'<n. \<forall>j'<p.
        cell (fst s') i' j' =
          (if i' = i \<and> j' \<in> set (j # js) then Some (masked_sum (X ! j') oi)
           else cell (fst s) i' j') \<and>
        cell (snd s') i' j' =
          (if i' = i \<and> j' \<in> set (j # js) then Some (masked_sum (X ! j') ri)
           else cell (snd s) i' j')"
    using so(4) sr(4) s'(6) by auto
  from run s'(2,3) lab cells show ?case by blast
qed


lemma outer_loop_fills:
  assumes "frame_ok n p (fst s)" and "frame_ok n p (snd s)"
    and "\<forall>i\<in>set rows. i < n"
  shows "\<exists>s'. outer_loop firmid cdid id_var X p rows s = Inr s' \<and>
           frame_ok n p (fst s') \<and> frame_ok n p (snd s') \<and>
           same_labels (fst s) (fst s') \<and> same_labels (snd s) (snd s') \<and>
           (\<forall>i'<n. \<forall>j'<p.
              cell (fst s') i' j' =
                (if i' \<in> set rows
                 then Some (masked_sum (X ! j') (other_ind firmid cdid id_var i'))
                 else cell (fst s) i' j') \<and>
              cell (snd s') i' j' =
                (if i' \<in> set rows
                 then Some (masked_sum (X ! j') (rival_ind firmid cdid i'))
                 else cell (snd s) i' j'))"
  using assms
proof (induction rows arbitrary: s)
  case Nil
  then show ?case by (simp add: same_labels_refl)
next
  case (Cons i rows)
  from Cons.prems have i: "i < n" by simp
  have cols: "\<forall>j\<in>set [0..<p]. j < p" by simp
  from inner_loop_fills [OF Cons.prems(1) Cons.prems(2) i cols,
      of X "other_ind firmid cdid id_var i" "rival_ind firmid cdid i"]
  obtain t where t:
    "inner_loop X (other_ind firmid cdid id_var i) (rival_ind firmid cdid i) i [0..<p] s = Inr t"
    "frame_ok n p (fst t)" "frame_ok n p (snd t)"
    "same_labels (fst s) (fst t)" "same_labels (snd s) (snd t)"
    "\<forall>i'<n. \<forall>j'<p.
        cell (fst t) i' j' =
          (if i' = i \<and> j' \<in> set [0..<p]
           then Some (masked_sum (X ! j') (other_ind firmid cdid id_var i))
           else cell (fst s) i' j') \<and>
        cell (snd t) i' j' =
          (if i' = i \<and> j' \<in> set [0..<p]
           then Some (masked_sum (X ! j') (rival_ind firmid cdid i))
           else cell (snd s) i' j')"
    by blast
  from Cons.prems have rows: "\<forall>i\<in>set rows. i < n" by simp
  from Cons.IH [OF t(2) t(3) rows]
  obtain s' where s': "outer_loop firmid cdid id_var X p rows t = Inr s'"
    "frame_ok n p (fst s')" "frame_ok n p (snd s')"
    "same_labels (fst t) (fst s')" "same_labels (snd t) (snd s')"
    "\<forall>i'<n. \<forall>j'<p.
        cell (fst s') i' j' =
          (if i' \<in> set rows
           then Some (masked_sum (X ! j') (other_ind firmid cdid id_var i'))
           else cell (fst t) i' j') \<and>
        cell (snd s') i' j' =
          (if i' \<in> set rows
           then Some (masked_sum (X ! j') (rival_ind firmid cdid i'))
           else cell (snd t) i' j')"
    by blast
  have run: "outer_loop firmid cdid id_var X p (i # rows) s = Inr s'"
    using t(1) s'(1) by simp
  have lab: "same_labels (fst s) (fst s')" "same_labels (snd s) (snd s')"
    using t(4,5) s'(4,5) by (blast intro: same_labels_trans)+
  have cells: "\<forall>i'<n. \<forall>j'<p.
        cell (fst s') i' j' =
          (if i' \<in> set (i # rows)
           then Some (masked_sum (X ! j') (other_ind firmid cdid id_var i'))
           else cell (fst s) i' j') \<and>
        cell (snd s') i' j' =
          (if i' \<in> set (i # rows)
           then Some (masked_sum (X ! j') (rival_ind firmid cdid i'))
           else cell (snd s) i' j')"
    using t(6) s'(6) by auto
  from run s'(2,3) lab cells show ?case by blast
qed

lemma frame_ok_DataFrame: "frame_ok (length idx) (length names) (DataFrame names idx)"
  by (simp add: frame_ok_def DataFrame_def)

lemma getitem_length:
  assumes "wf_frame df" and "getitem df name = Inr c"
  shows "length c = length (index df)"
proof -
  from assms(2) have "map_of (columns df) name = Some c"
    by (simp add: getitem_def split: option.splits)
  then have "(name, c) \<in> set (columns df)" by (rule map_of_SomeD)
  with assms(1) show ?thesis
    by (auto simp: wf_frame_def list_all_iff)
qed

lemma getitems_nth:
  "getitems df names = Inr X \<Longrightarrow>
   length X = length names \<and> (\<forall>j<length names. getitem df (names ! j) = Inr (X ! j))"
proof (induction names arbitrary: X)
  case Nil
  then show ?case by simp
next
  case (Cons v vs)
  then obtain c cs where c: "getitem df v = Inr c" and cs: "getitems df vs = Inr cs"
    and X: "X = c # cs"
    by (auto split: sum.splits)
  from Cons.IH [OF cs] c X show ?case
    by (auto simp: nth_Cons split: nat.splits)
qed


lemma construct_iv_filled:
  fixes blp_data :: "('l, ('a::comm_monoid_add) option) data_frame"
  assumes wf: "wf_frame blp_data"
    and firmid: "getitem blp_data ''firm.id'' = Inr firmid"
    and cdid: "getitem blp_data ''cdid'' = Inr cdid"
    and id_var: "getitem blp_data ''id'' = Inr id_var"
    and X: "getitems blp_data x_cols = Inr X"
  shows "\<exists>iv. construct_iv blp_data x_cols = Inr iv \<and>
           index iv = index blp_data \<and>
           map fst (columns iv) =
             map (\<lambda>var. ''sum.other.'' @ var) x_cols @ map (\<lambda>var. ''sum.rival.'' @ var) x_cols \<and>
           (\<forall>j<length x_cols.
              length (snd (columns iv ! j)) = length (index blp_data) \<and>
              length (snd (columns iv ! (length x_cols + j))) = length (index blp_data) \<and>
              (\<forall>i<length (index blp_data).
                 cell iv i j = Some (masked_sum (X ! j) (other_ind firmid cdid id_var i)) \<and>
                 cell iv i (length x_cols + j) =
                   Some (masked_sum (X ! j) (rival_ind firmid cdid i))))"
proof -
  let ?n = "length (index blp_data)" and ?p = "length x_cols"
  let ?o0 = "DataFrame (map (\<lambda>var. ''sum.other.'' @ var) x_cols) (index blp_data)
               :: ('l, 'a option) data_frame"
  let ?r0 = "DataFrame (map (\<lambda>var. ''sum.rival.'' @ var) x_cols) (index blp_data)
               :: ('l, 'a option) data_frame"
  have o0: "frame_ok ?n ?p (fst (?o0, ?r0))" and r0: "frame_ok ?n ?p (snd (?o0, ?r0))"
    using frame_ok_DataFrame [of "index blp_data" "map (\<lambda>var. ''sum.other.'' @ var) x_cols"]
      frame_ok_DataFrame [of "index blp_data" "map (\<lambda>var. ''sum.rival.'' @ var) x_cols"]
    by simp_all
  have rows: "\<forall>i\<in>set [0..<?n]. i < ?n" by simp
  from outer_loop_fills [OF o0 r0 rows, of firmid cdid id_var X]
  obtain s where s: "outer_loop firmid cdid id_var X ?p [0..<?n] (?o0, ?r0) = Inr s"
    "frame_ok ?n ?p (fst s)" "frame_ok ?n ?p (snd s)"
    "same_labels ?o0 (fst s)" "same_labels ?r0 (snd s)"
    "\<forall>i'<?n. \<forall>j'<?p.
        cell (fst s) i' j' = Some (masked_sum (X ! j') (other_ind firmid cdid id_var i')) \<and>
        cell (snd s) i' j' = Some (masked_sum (X ! j') (rival_ind firmid cdid i'))"
    by auto
  let ?iv = "concat_axis1 (fst s) (snd s)"
  have run: "construct_iv blp_data x_cols = Inr ?iv"
    unfolding construct_iv_def Let_def firmid cdid id_var X s(1) sum.case ..
  have idx: "index ?iv = index blp_data"
    using s(4) by (simp add: concat_axis1_def same_labels_def DataFrame_def)
  have names: "map fst (columns ?iv) =
      map (\<lambda>var. ''sum.other.'' @ var) x_cols @ map (\<lambda>var. ''sum.rival.'' @ var) x_cols"
    using s(4,5) by (simp add: concat_axis1_def same_labels_def DataFrame_def comp_def)
  have len: "length (columns (fst s)) = ?p" "length (columns (snd s)) = ?p"
    using s(2,3) by (simp_all add: frame_ok_def)
  have left: "columns ?iv ! j = columns (fst s) ! j" if "j < ?p" for j
    using that len by (simp add: concat_axis1_def nth_append)
  have right: "columns ?iv ! (?p + j) = columns (snd s) ! j" for j
    using len by (simp add: concat_axis1_def nth_append)
  have cells: "\<forall>j<?p.
      length (snd (columns ?iv ! j)) = ?n \<and>
      length (snd (columns ?iv ! (?p + j))) = ?n \<and>
      (\<forall>i<?n.
         cell ?iv i j = Some (masked_sum (X ! j) (other_ind firmid cdid id_var i)) \<and>
         cell ?iv i (?p + j) = Some (masked_sum (X ! j) (rival_ind firmid cdid i)))"
  proof (intro allI impI)
    fix j assume j: "j < ?p"
    have "length (snd (columns ?iv ! j)) = ?n"
      using s(2) j left [OF j] by (simp add: frame_ok_def)
    moreover have "length (snd (columns ?iv ! (?p + j))) = ?n"
      using s(3) j right [of j] by (simp add: frame_ok_def)
    moreover have "\<forall>i<?n.
         cell ?iv i j = Some (masked_sum (X ! j) (other_ind firmid cdid id_var i)) \<and>
         cell ?iv i (?p + j) = Some (masked_sum (X ! j) (rival_ind firmid cdid i))"
      using s(6) j left [OF j] right [of j] by (simp add: cell_def)
    ultimately show "length (snd (columns ?iv ! j)) = ?n \<and>
      length (snd (columns ?iv ! (?p + j))) = ?n \<and>
      (\<forall>i<?n.
         cell ?iv i j = Some (masked_sum (X ! j) (other_ind firmid cdid id_var i)) \<and>
         cell ?iv i (?p + j) = Some (masked_sum (X ! j) (rival_ind firmid cdid i)))"
      by blast
  qed
  from run idx names cells show ?thesis by blast
qed


lemma other_sum_set:
  assumes "length firmid = n" and "length cdid = n" and "length id_var = n"
    and "length col = n"
  shows "masked_sum col (other_ind firmid cdid id_var i) =
         (\<Sum>k\<in>{k \<in> {..<n}. np_eq (firmid ! k) (firmid ! i) \<and> np_eq (cdid ! k) (cdid ! i) \<and>
                              np_ne (id_var ! k) (id_var ! i)}. nan_as_zero (col ! k))"
proof -
  have "{k \<in> {..<n}. other_ind firmid cdid id_var i ! k} =
        {k \<in> {..<n}. np_eq (firmid ! k) (firmid ! i) \<and> np_eq (cdid ! k) (cdid ! i) \<and>
                       np_ne (id_var ! k) (id_var ! i)}"
    using assms(1-3) by (auto simp: nth_other_ind)
  moreover have "length (other_ind firmid cdid id_var i) = length col"
    using assms by (simp add: length_other_ind)
  ultimately show ?thesis
    using assms(4) by (simp add: masked_sum_set)
qed

lemma rival_sum_set:
  assumes "length firmid = n" and "length cdid = n" and "length col = n"
  shows "masked_sum col (rival_ind firmid cdid i) =
         (\<Sum>k\<in>{k \<in> {..<n}. np_ne (firmid ! k) (firmid ! i) \<and> np_eq (cdid ! k) (cdid ! i)}.
            nan_as_zero (col ! k))"
proof -
  have "{k \<in> {..<n}. rival_ind firmid cdid i ! k} =
        {k \<in> {..<n}. np_ne (firmid ! k) (firmid ! i) \<and> np_eq (cdid ! k) (cdid ! i)}"
    using assms(1,2) by (auto simp: nth_rival_ind)
  moreover have "length (rival_ind firmid cdid i) = length col"
    using assms by (simp add: length_rival_ind)
  ultimately show ?thesis
    using assms(3) by (simp add: masked_sum_set)
qed

section \<open>What construct_iv returns\<close>



section \<open>Own product, same-firm products and rivals make up the market\<close>

text \<open>numpy's \<^verbatim>\<open>==\<close> holds of a cell and itself exactly when the cell is not missing.\<close>

lemma np_eq_refl_iff: "np_eq x x \<longleftrightarrow> x \<noteq> None"
  by (cases x) (simp_all add: np_eq_def)

lemma np_eq_imp_eq: "np_eq x y \<Longrightarrow> x = y"
  by (auto simp: np_eq_def split: option.splits)

lemma market_split:
  fixes col :: "('a::comm_monoid_add) option list"
  assumes "length firmid = n" and "length cdid = n" and "length id_var = n"
    and "distinct id_var" and "i < n"
    and "firmid ! i \<noteq> None" and "cdid ! i \<noteq> None" and "id_var ! i \<noteq> None"
  shows "(\<Sum>k\<in>{k \<in> {..<n}. np_eq (firmid ! k) (firmid ! i) \<and> np_eq (cdid ! k) (cdid ! i) \<and>
                           np_ne (id_var ! k) (id_var ! i)}. nan_as_zero (col ! k)) +
         (\<Sum>k\<in>{k \<in> {..<n}. np_ne (firmid ! k) (firmid ! i) \<and> np_eq (cdid ! k) (cdid ! i)}.
            nan_as_zero (col ! k)) +
         nan_as_zero (col ! i) =
         (\<Sum>k\<in>{k \<in> {..<n}. np_eq (cdid ! k) (cdid ! i)}. nan_as_zero (col ! k))"
proof -
  let ?O = "{k \<in> {..<n}. np_eq (firmid ! k) (firmid ! i) \<and> np_eq (cdid ! k) (cdid ! i) \<and>
                           np_ne (id_var ! k) (id_var ! i)}"
  let ?R = "{k \<in> {..<n}. np_ne (firmid ! k) (firmid ! i) \<and> np_eq (cdid ! k) (cdid ! i)}"
  let ?T = "{k \<in> {..<n}. np_eq (cdid ! k) (cdid ! i)}"
  let ?f = "\<lambda>k. nan_as_zero (col ! k)"
  have same_id: "k = i" if "k < n" and "np_eq (id_var ! k) (id_var ! i)" for k
  proof -
    from that(2) have "id_var ! k = id_var ! i" by (rule np_eq_imp_eq)
    with that(1) assms(3,4,5) show ?thesis by (simp add: nth_eq_iff_index_eq)
  qed
  have self: "np_eq (firmid ! i) (firmid ! i)" "np_eq (cdid ! i) (cdid ! i)"
    "np_eq (id_var ! i) (id_var ! i)"
    using assms(6-8) by (simp_all add: np_eq_refl_iff)
  have T: "?T = insert i (?O \<union> ?R)"
    using assms(5) same_id self(2) by (auto simp: np_ne_def)
  have fin: "finite ?O" "finite ?R" by simp_all
  have disj: "?O \<inter> ?R = {}" by (auto simp: np_ne_def)
  have notin: "i \<notin> ?O \<union> ?R" using self by (simp add: np_ne_def)
  have "sum ?f ?T = ?f i + sum ?f (?O \<union> ?R)"
    unfolding T using fin notin by (simp del: Un_iff)
  also have "sum ?f (?O \<union> ?R) = sum ?f ?O + sum ?f ?R"
    using fin disj by (rule sum.union_disjoint)
  finally show ?thesis by (simp add: ac_simps)
qed

text \<open>
  Claim C10, as amended. Let the product ids of the frame be pairwise distinct, and let
  row \<open>i\<close> have its firm, its market and its product id, none of them missing. Then for
  every feature the entry \<^verbatim>\<open>sum.other\<close>, the entry \<^verbatim>\<open>sum.rival\<close> and the row's own
  value (which adds nothing when it is missing) add up, in exact arithmetic, to the total of
  the feature over the rows of row \<open>i\<close>'s market: the other products of the firm, the
  rivals' products and the product itself partition the market.
\<close>

theorem construct_iv_market_total:
  fixes blp_data :: "('l, ('a::comm_monoid_add) option) data_frame"
  assumes wf: "wf_frame blp_data"
    and firmid: "getitem blp_data ''firm.id'' = Inr firmid"
    and cdid: "getitem blp_data ''cdid'' = Inr cdid"
    and id_var: "getitem blp_data ''id'' = Inr id_var"
    and X: "getitems blp_data x_cols = Inr X"
    and ids: "distinct id_var"
  shows "\<exists>iv. construct_iv blp_data x_cols = Inr iv \<and>
           (\<forall>j<length x_cols. \<forall>i<length (index blp_data).
              firmid ! i \<noteq> None \<and> cdid ! i \<noteq> None \<and> id_var ! i \<noteq> None \<longrightarrow>
              (\<exists>other rival.
                 cell iv i j = Some other \<and>
                 cell iv i (length x_cols + j) = Some rival \<and>
                 other + rival + nan_as_zero (X ! j ! i) =
                   (\<Sum>k\<in>{k \<in> {..<length (index blp_data)}. np_eq (cdid ! k) (cdid ! i)}.
                      nan_as_zero (X ! j ! k))))"
proof -
  let ?n = "length (index blp_data)" and ?p = "length x_cols"
  from construct_iv_filled [OF wf firmid cdid id_var X]
  obtain iv where iv: "construct_iv blp_data x_cols = Inr iv"
    "\<forall>j<?p. \<forall>i<?n.
        cell iv i j = Some (masked_sum (X ! j) (other_ind firmid cdid id_var i)) \<and>
        cell iv i (?p + j) = Some (masked_sum (X ! j) (rival_ind firmid cdid i))"
    by blast
  have lens: "length firmid = ?n" "length cdid = ?n" "length id_var = ?n"
    using wf firmid cdid id_var by (simp_all add: getitem_length)
  have Xlen: "length (X ! j) = ?n" if "j < ?p" for j
  proof -
    from getitems_nth [OF X] that have "getitem blp_data (x_cols ! j) = Inr (X ! j)" by blast
    with wf show ?thesis by (rule getitem_length)
  qed
  have "\<exists>other rival.
          cell iv i j = Some other \<and> cell iv i (?p + j) = Some rival \<and>
          other + rival + nan_as_zero (X ! j ! i) =
            (\<Sum>k\<in>{k \<in> {..<?n}. np_eq (cdid ! k) (cdid ! i)}. nan_as_zero (X ! j ! k))"
    if j: "j < ?p" and i: "i < ?n"
      and present: "firmid ! i \<noteq> None" "cdid ! i \<noteq> None" "id_var ! i \<noteq> None" for i j
  proof -
    have "masked_sum (X ! j) (other_ind firmid cdid id_var i) +
          masked_sum (X ! j) (rival_ind firmid cdid i) + nan_as_zero (X ! j ! i) =
          (\<Sum>k\<in>{k \<in> {..<?n}. np_eq (cdid ! k) (cdid ! i)}. nan_as_zero (X ! j ! k))"
      unfolding other_sum_set [OF lens Xlen [OF j]] rival_sum_set [OF lens(1,2) Xlen [OF j]]
      using lens ids i present by (rule market_split)
    with iv(2) j i show ?thesis by blast
  qed
  with iv(1) show ?thesis by blast
qed

text \<open>At the example frame, first row: 5 + 8 + 3 is the total 16 of market 7.\<close>

theorem construct_iv_market_total_witness:
  "wf_frame blp_example \<and>
   getitem blp_example ''firm.id'' = Inr [Some 1, Some 1, Some 2, Some 1] \<and>
   getitem blp_example ''cdid'' = Inr [Some 7, Some 7, Some 7, Some 8] \<and>
   getitem blp_example ''id'' = Inr [Some 100, Some 101, Some 102, Some 103] \<and>
   getitems blp_example [''hpwt''] = Inr [[Some 3, Some 5, Some 8, Some 13]] \<and>
   distinct [Some 100, Some 101, Some 102, Some (103::int)] \<and>
   (\<exists>iv other rival. construct_iv blp_example [''hpwt''] = Inr iv \<and>
      cell iv 0 0 = Some other \<and> cell iv 0 1 = Some rival \<and> other + rival + 3 = 16)"
proof -
  let ?firmid = "[Some 1, Some 1, Some 2, Some (1::int)]"
  let ?cdid = "[Some 7, Some 7, Some 7, Some (8::int)]"
  let ?id = "[Some 100, Some 101, Some 102, Some (103::int)]"
  let ?hpwt = "[Some 3, Some 5, Some 8, Some (13::int)]"
  have wf: "wf_frame blp_example"
    by (simp add: wf_frame_def blp_example_def)
  have firmid: "getitem blp_example ''firm.id'' = Inr ?firmid"
    and cdid: "getitem blp_example ''cdid'' = Inr ?cdid"
    and id_var: "getitem blp_example ''id'' = Inr ?id"
    by (simp_all add: getitem_def blp_example_def)
  have X: "getitems blp_example [''hpwt''] = Inr [?hpwt]"
    by (simp add: getitem_def blp_example_def)
  have ids: "distinct ?id" by simp
  from construct_iv_market_total [OF wf firmid cdid id_var X ids]
  obtain iv where iv: "construct_iv blp_example [''hpwt''] = Inr iv"
    "\<forall>j<length [''hpwt'']. \<forall>i<length (index blp_example).
        ?firmid ! i \<noteq> None \<and> ?cdid ! i \<noteq> None \<and> ?id ! i \<noteq> None \<longrightarrow>
        (\<exists>other rival.
           cell iv i j = Some other \<and>
           cell iv i (length [''hpwt''] + j) = Some rival \<and>
           other + rival + nan_as_zero ([?hpwt] ! j ! i) =
             (\<Sum>k\<in>{k \<in> {..<length (index blp_example)}. np_eq (?cdid ! k) (?cdid ! i)}.
                nan_as_zero ([?hpwt] ! j ! k)))"
    by blast
  have n: "length (index blp_example) = 4" by (simp add: blp_example_def)
  have total: "(\<Sum>k\<in>{k \<in> {..<4::nat}. np_eq (?cdid ! k) (?cdid ! 0)}.
                   nan_as_zero ([?hpwt] ! 0 ! k)) = (16::int)"
    by code_simp
  have j0: "(0::nat) < length [''hpwt'']" by simp
  have i0: "(0::nat) < length (index blp_example)" by (simp add: n)
  have present: "?firmid ! 0 \<noteq> None \<and> ?cdid ! 0 \<noteq> None \<and> ?id ! 0 \<noteq> None" by simp
  from iv(2) j0 i0 present obtain other rival where cells:
    "cell iv 0 0 = Some other" "cell iv 0 (length [''hpwt''] + 0) = Some rival"
    and sum: "other + rival + nan_as_zero ([?hpwt] ! 0 ! 0) =
      (\<Sum>k\<in>{k \<in> {..<length (index blp_example)}. np_eq (?cdid ! k) (?cdid ! 0)}.
         nan_as_zero ([?hpwt] ! 0 ! k))"
    by blast
  from sum have "other + rival + 3 = 16"
    unfolding n total by (simp add: nan_as_zero_def)
  with cells have "\<exists>other rival.
      cell iv 0 0 = Some other \<and> cell iv 0 1 = Some rival \<and> other + rival + 3 = 16"
    by auto
  with iv(1) wf firmid cdid id_var X ids show ?thesis by blast
qed

text \<open>
  The claim as first stated, for every frame with pairwise distinct ids, fails where the
  firm of a row is missing: \<^verbatim>\<open>firmid != firmid[i]\<close> is then true of every row, the row
  itself included, so the row is its own rival. In the frame \<open>nan_example\<close> the first row
  gets 0 for the other products and 16 for the rivals, and with its own value 3 that is 19
  against the market's total of 16.
\<close>

theorem construct_iv_market_total_counterexample:
  "wf_frame nan_example \<and>
   getitem nan_example ''firm.id'' = Inr [None, Some 1, Some 2] \<and>
   getitem nan_example ''cdid'' = Inr [Some 7, Some 7, Some 7] \<and>
   getitem nan_example ''id'' = Inr [Some 1, Some 2, Some 3] \<and>
   getitems nan_example [''hpwt''] = Inr [[Some 3, Some 5, Some 8]] \<and>
   distinct [Some 1, Some 2, Some (3::int)] \<and>
   construct_iv nan_example [''hpwt''] =
     Inr \<lparr>index = [0, 1, 2],
          columns = [(''sum.other.hpwt'', [Some 0, Some 0, Some 0]),
                     (''sum.rival.hpwt'', [Some 16, Some 11, Some 8])]\<rparr> \<and>
   (\<Sum>k\<in>{k \<in> {..<3::nat}. np_eq ([Some 7, Some 7, Some (7::int)] ! k)
                                    ([Some 7, Some 7, Some 7] ! 0)}.
      nan_as_zero ([Some 3, Some 5, Some (8::int)] ! k)) = 16 \<and>
   (0::int) + 16 + 3 \<noteq> 16"
  by code_simp

section \<open>\<open>\<Gamma>\<close>-hat and the pairs that share a cluster index\<close>

lemma first_shared:
  fixes f :: "nat \<Rightarrow> nat \<Rightarrow> real"
  shows "(\<Sum>i\<in>A. \<Sum>j\<in>B. \<Sum>j'\<in>B. f i j * f i j') =
         (\<Sum>(a, b)\<in>{(a, b) \<in> (A \<times> B) \<times> (A \<times> B). fst a = fst b}.
            f (fst a) (snd a) * f (fst b) (snd b))"
proof -
  let ?h = "\<lambda>(i, j, j'). ((i, j), (i, j'::nat))"
  have inj: "inj_on ?h (A \<times> B \<times> B)" by (auto simp: inj_on_def)
  have img: "?h ` (A \<times> B \<times> B) = {(a, b) \<in> (A \<times> B) \<times> (A \<times> B). fst a = fst b}"
    by (auto simp: image_iff)
  have "(\<Sum>i\<in>A. \<Sum>j\<in>B. \<Sum>j'\<in>B. f i j * f i j') =
        (\<Sum>(i, j, j')\<in>A \<times> B \<times> B. f i j * f i j')"
    by (simp add: sum.cartesian_product)
  also have "\<dots> = (\<Sum>t\<in>A \<times> B \<times> B. (\<lambda>(a, b). f (fst a) (snd a) * f (fst b) (snd b)) (?h t))"
    by (rule sum.cong) auto
  also have "\<dots> = (\<Sum>(a, b)\<in>?h ` (A \<times> B \<times> B). f (fst a) (snd a) * f (fst b) (snd b))"
    using inj by (simp add: sum.reindex)
  finally show ?thesis by (simp only: img)
qed

lemma second_shared:
  fixes f :: "nat \<Rightarrow> nat \<Rightarrow> real"
  shows "(\<Sum>i\<in>A. \<Sum>i'\<in>A. \<Sum>j\<in>B. f i j * f i' j) =
         (\<Sum>(a, b)\<in>{(a, b) \<in> (A \<times> B) \<times> (A \<times> B). snd a = snd b}.
            f (fst a) (snd a) * f (fst b) (snd b))"
proof -
  let ?h = "\<lambda>(i, i', j). ((i, j), (i'::nat, j))"
  have inj: "inj_on ?h (A \<times> A \<times> B)" by (auto simp: inj_on_def)
  have img: "?h ` (A \<times> A \<times> B) = {(a, b) \<in> (A \<times> B) \<times> (A \<times> B). snd a = snd b}"
    by (auto simp: image_iff)
  have "(\<Sum>i\<in>A. \<Sum>i'\<in>A. \<Sum>j\<in>B. f i j * f i' j) =
        (\<Sum>(i, i', j)\<in>A \<times> A \<times> B. f i j * f i' j)"
    by (simp add: sum.cartesian_product)
  also have "\<dots> = (\<Sum>t\<in>A \<times> A \<times> B. (\<lambda>(a, b). f (fst a) (snd a) * f (fst b) (snd b)) (?h t))"
    by (rule sum.cong) auto
  also have "\<dots> = (\<Sum>(a, b)\<in>?h ` (A \<times> A \<times> B). f (fst a) (snd a) * f (fst b) (snd b))"
    using inj by (simp add: sum.reindex)
  finally show ?thesis by (simp only: img)
qed

lemma diagonal_pairs:
  fixes f :: "nat \<Rightarrow> nat \<Rightarrow> real"
  shows "(\<Sum>i\<in>A. \<Sum>j\<in>B. (f i j)\<^sup>2) =
         (\<Sum>(a, b)\<in>{(a, b) \<in> (A \<times> B) \<times> (A \<times> B). fst a = fst b} \<inter>
                     {(a, b) \<in> (A \<times> B) \<times> (A \<times> B). snd a = snd b}.
            f (fst a) (snd a) * f (fst b) (snd b))"
proof -
  let ?h = "\<lambda>a::nat \<times> nat. (a, a)"
  have inj: "inj_on ?h (A \<times> B)" by (auto simp: inj_on_def)
  have img: "?h ` (A \<times> B) =
      {(a, b) \<in> (A \<times> B) \<times> (A \<times> B). fst a = fst b} \<inter>
      {(a, b) \<in> (A \<times> B) \<times> (A \<times> B). snd a = snd b}"
    by (auto simp: image_iff)
  have "(\<Sum>i\<in>A. \<Sum>j\<in>B. (f i j)\<^sup>2) = (\<Sum>(i, j)\<in>A \<times> B. (f i j)\<^sup>2)"
    by (simp add: sum.cartesian_product)
  also have "\<dots> = (\<Sum>t\<in>A \<times> B. (\<lambda>(a, b). f (fst a) (snd a) * f (fst b) (snd b)) (?h t))"
    by (rule sum.cong) (auto simp: power2_eq_square)
  also have "\<dots> = (\<Sum>(a, b)\<in>?h ` (A \<times> B). f (fst a) (snd a) * f (fst b) (snd b))"
    using inj by (simp add: sum.reindex)
  finally show ?thesis by (simp only: img)
qed

lemma fold_pairs_finite:
  fixes f :: "nat \<Rightarrow> nat \<Rightarrow> real"
  assumes "finite A" and "finite B"
  shows "(\<Sum>i\<in>A. \<Sum>j\<in>B. \<Sum>j'\<in>B. f i j * f i j') + (\<Sum>i\<in>A. \<Sum>i'\<in>A. \<Sum>j\<in>B. f i j * f i' j) =
         (\<Sum>(a, b)\<in>shared_pairs A B. f (fst a) (snd a) * f (fst b) (snd b)) +
         (\<Sum>i\<in>A. \<Sum>j\<in>B. (f i j)\<^sup>2)"
proof -
  let ?P1 = "{(a, b) \<in> (A \<times> B) \<times> (A \<times> B). fst a = fst b}"
  let ?P2 = "{(a, b) \<in> (A \<times> B) \<times> (A \<times> B). snd a = snd b}"
  let ?g = "\<lambda>(a, b). f (fst a) (snd a) * f (fst b) (snd b)"
  have fin: "finite ((A \<times> B) \<times> (A \<times> B))" using assms by simp
  have f1: "finite ?P1" by (rule finite_subset [OF _ fin]) auto
  have f2: "finite ?P2" by (rule finite_subset [OF _ fin]) auto
  have un: "?P1 \<union> ?P2 = shared_pairs A B"
    by (auto simp: shared_pairs_def)
  have "(\<Sum>i\<in>A. \<Sum>j\<in>B. \<Sum>j'\<in>B. f i j * f i j') + (\<Sum>i\<in>A. \<Sum>i'\<in>A. \<Sum>j\<in>B. f i j * f i' j) =
        sum ?g ?P1 + sum ?g ?P2"
    by (simp only: first_shared second_shared)
  also have "\<dots> = sum ?g (?P1 \<union> ?P2) + sum ?g (?P1 \<inter> ?P2)"
    using f1 f2 by (rule sum.union_inter [symmetric])
  also have "\<dots> = sum ?g (shared_pairs A B) + (\<Sum>i\<in>A. \<Sum>j\<in>B. (f i j)\<^sup>2)"
    by (simp only: un diagonal_pairs)
  finally show ?thesis .
qed

lemma fold_scale_infinite: "infinite A \<or> infinite B \<Longrightarrow> fold_scale A B = 0"
  by (auto simp: fold_scale_def)

lemma fold_pairs:
  fixes f :: "nat \<Rightarrow> nat \<Rightarrow> real"
  shows "fold_scale A B *
           ((\<Sum>i\<in>A. \<Sum>j\<in>B. \<Sum>j'\<in>B. f i j * f i j') + (\<Sum>i\<in>A. \<Sum>i'\<in>A. \<Sum>j\<in>B. f i j * f i' j)) =
         fold_scale A B * (\<Sum>(a, b)\<in>shared_pairs A B. f (fst a) (snd a) * f (fst b) (snd b)) +
         fold_scale A B * (\<Sum>i\<in>A. \<Sum>j\<in>B. (f i j)\<^sup>2)"
proof (cases "finite A \<and> finite B")
  case True
  then show ?thesis by (simp add: fold_pairs_finite distrib_left)
next
  case False
  then have "fold_scale A B = 0" by (simp add: fold_scale_infinite)
  then show ?thesis by simp
qed


text \<open>
  Claim C3, as amended. \<open>\<Gamma>\<close>-hat, the double-sum formula of the notebook, is not the
  sum over the pairs of observations that share the first or the second cluster index with
  every pair counted once: a pair that shares both indices, an observation paired with
  itself, occurs in both triple sums and is counted twice. For all folds and scores,
  \<open>\<Gamma>\<close>-hat is the sum over the pairs sharing the first or the second index, each once,
  plus the sum of the squared scores of the fold's observations, both scaled by
  \<open>min |I k| |J l| / (|I k| |J l|)\<^sup>2\<close> and averaged over the \<open>K\<^sup>2\<close> folds.
\<close>

theorem Gamma_hat_counts_own_pair_twice:
  "Gamma_hat K I J psi =
     Gamma_hat_shared_pairs K I J psi +
     1 / (real K)\<^sup>2 *
       (\<Sum>k\<in>{1..K}. \<Sum>l\<in>{1..K}.
          fold_scale (I k) (J l) * (\<Sum>i\<in>I k. \<Sum>j\<in>J l. (psi k l i j)\<^sup>2))"
  unfolding Gamma_hat_def Gamma_hat_shared_pairs_def fold_pairs
  by (simp add: sum.distrib distrib_left)


text \<open>The claim as first stated fails on a single fold with one observation of score 1:
  the formula gives 2, the sum over the one pair gives 1.\<close>

theorem Gamma_hat_shared_pairs_counterexample:
  "Gamma_hat 1 one_fold one_fold unit_score \<noteq> Gamma_hat_shared_pairs 1 one_fold one_fold unit_score"
  by code_simp


end
